theory Spec2Isabelle
  imports Complex_Main "HOL-Library.AList" "HOL-Library.Multiset"
begin

section \<open>Values\<close>

text \<open>
  A Python number as the program meets it: an \<open>int\<close> or a finite \<open>float\<close> is the
  rational it denotes (\<open>Fin\<close>), and the three special floats are kept apart, because
  \<open>int()\<close> raises on them and pandas' \<open>fillna\<close> replaces only \<open>NaN\<close>. Integers are
  unbounded as in Python. Where pandas stores a column as float64 the integers in it are
  rounded (\<open>float64_of_int\<close> below).
\<close>

datatype pynum = Fin rat | PosInf | NegInf | NaN

text \<open>
  What \<open>r.json()\<close> returns. A \<open>JDict\<close> is read as a Python dict: the first binding of a
  key is the entry of the dict (\<open>map_of\<close>), and \<open>py_items\<close> lists each key once, in
  insertion order. \<open>JNull\<close> is \<open>None\<close>.
\<close>

datatype json =
    JNull
  | JBool bool
  | JNum pynum
  | JStr string
  | JList "json list"
  | JDict "(string \<times> json) list"

datatype pyerr =
  KeyError | TypeError | ValueError | OverflowError | IndexError | AttributeError

type_synonym pydict = "(string \<times> json) list"

definition py_items :: "(string \<times> 'v) list \<Rightarrow> (string \<times> 'v) list" where
  "py_items d = AList.clearjunk d"

definition py_keys :: "(string \<times> 'v) list \<Rightarrow> string set" where
  "py_keys d = fst ` set d"

fun is_dict :: "json \<Rightarrow> bool" where
  "is_dict (JDict d) = True"
| "is_dict j = False"

fun is_list :: "json \<Rightarrow> bool" where
  "is_list (JList xs) = True"
| "is_list j = False"

text \<open>\<open>obj[key]\<close> with a string key: only a dict can be subscripted by a string.\<close>

fun getitem :: "json \<Rightarrow> string \<Rightarrow> pyerr + json" where
  "getitem (JDict d) k = (case map_of d k of Some v \<Rightarrow> Inr v | None \<Rightarrow> Inl KeyError)"
| "getitem j k = Inl TypeError"

text \<open>\<open>d.get(key, default)\<close> on a dict.\<close>

definition dict_get :: "(string \<times> 'v) list \<Rightarrow> string \<Rightarrow> 'v \<Rightarrow> 'v" where
  "dict_get d k dflt = (case map_of d k of Some v \<Rightarrow> v | None \<Rightarrow> dflt)"

section \<open>Model-Count Extractor\<close>

text \<open>
  \<^verbatim>\<open>
  def extract_car_models(daily_json):
      if not isinstance(daily_json, dict):
          return {}
      for version in ("v2", "v1"):
          try:
              models = daily_json[version]["cars"]["models"]
              if isinstance(models, dict):
                  return models
          except Exception:
              pass
      return {}
  \<close>
  \<open>descend3\<close> is the chained subscript of the \<open>try\<close> body; the first subscript that
  raises ends it.
\<close>

definition descend3 :: "json \<Rightarrow> string \<Rightarrow> pyerr + json" where
  "descend3 daily_json version =
     (case getitem daily_json version of
        Inl e \<Rightarrow> Inl e
      | Inr a \<Rightarrow>
          (case getitem a ''cars'' of
             Inl e \<Rightarrow> Inl e
           | Inr b \<Rightarrow> getitem b ''models''))"

fun probe_versions :: "json \<Rightarrow> string list \<Rightarrow> pyerr + pydict" where
  "probe_versions daily_json [] = Inr []"
| "probe_versions daily_json (version # rest) =
     (case descend3 daily_json version of
        Inr (JDict models) \<Rightarrow> Inr models
      | Inr other \<Rightarrow> probe_versions daily_json rest
      | Inl e \<Rightarrow> probe_versions daily_json rest)"

definition extract_car_models :: "json \<Rightarrow> pyerr + pydict" where
  "extract_car_models daily_json =
     (if \<not> is_dict daily_json then Inr []
      else probe_versions daily_json [''v2'', ''v1''])"

text \<open>
  The extractor as the specification words it: a fixed path of keys is followed from the
  document, and the first of the two schema tags whose path ends in a mapping wins.
\<close>

fun spec_descend :: "json \<Rightarrow> string list \<Rightarrow> json option" where
  "spec_descend j [] = Some j"
| "spec_descend (JDict d) (k # ks) =
     (case map_of d k of Some v \<Rightarrow> spec_descend v ks | None \<Rightarrow> None)"
| "spec_descend j (k # ks) = None"

definition spec_probe :: "json \<Rightarrow> string \<Rightarrow> pydict option" where
  "spec_probe j tag =
     (case spec_descend j [tag, ''cars'', ''models''] of
        Some (JDict m) \<Rightarrow> Some m
      | _ \<Rightarrow> None)"

definition spec_extract :: "json \<Rightarrow> pydict" where
  "spec_extract j =
     (case spec_probe j ''v2'' of
        Some m \<Rightarrow> m
      | None \<Rightarrow> (case spec_probe j ''v1'' of Some m \<Rightarrow> m | None \<Rightarrow> []))"

section \<open>Numbers and dates\<close>

text \<open>\<open>int(x)\<close> of a float truncates towards zero.\<close>

definition py_trunc :: "rat \<Rightarrow> int" where
  "py_trunc q = (if 0 \<le> q then \<lfloor>q\<rfloor> else \<lceil>q\<rceil>)"

text \<open>
  The builtin \<open>int(c)\<close> on a value of a JSON document. How \<open>int\<close> reads a string is the
  parameter \<open>int_str\<close> (\<open>None\<close> where it raises \<open>ValueError\<close>).
\<close>

fun py_int :: "(string \<Rightarrow> int option) \<Rightarrow> json \<Rightarrow> pyerr + int" where
  "py_int int_str JNull = Inl TypeError"
| "py_int int_str (JBool b) = Inr (if b then 1 else 0)"
| "py_int int_str (JNum (Fin q)) = Inr (py_trunc q)"
| "py_int int_str (JNum PosInf) = Inl OverflowError"
| "py_int int_str (JNum NegInf) = Inl OverflowError"
| "py_int int_str (JNum NaN) = Inl ValueError"
| "py_int int_str (JStr s) = (case int_str s of Some n \<Rightarrow> Inr n | None \<Rightarrow> Inl ValueError)"
| "py_int int_str (JList xs) = Inl TypeError"
| "py_int int_str (JDict d) = Inl TypeError"

text \<open>
  A \<open>datetime.date\<close> is its proleptic Gregorian ordinal (\<open>date.toordinal()\<close>, day 1 is
  0001-01-01): dates compare as their ordinals do and adding \<open>timedelta(days=1)\<close> adds
  one. \<open>ymd2ord\<close>, \<open>ord2ymd\<close> and \<open>monthrange\<close> follow the standard library.
\<close>

type_synonym date = int

definition isleap :: "int \<Rightarrow> bool" where
  "isleap y = (y mod 4 = 0 \<and> (y mod 100 \<noteq> 0 \<or> y mod 400 = 0))"

definition mdays :: "int \<Rightarrow> int" where
  "mdays m = (if m = 2 then 28 else if m = 4 \<or> m = 6 \<or> m = 9 \<or> m = 11 then 30 else 31)"

definition days_in_month :: "int \<Rightarrow> int \<Rightarrow> int" where
  "days_in_month y m = mdays m + (if m = 2 \<and> isleap y then 1 else 0)"

text \<open>\<open>calendar.monthrange(year, month)[1]\<close>: the number of days of the month.\<close>

definition monthrange :: "int \<Rightarrow> int \<Rightarrow> pyerr + int" where
  "monthrange year month =
     (if \<not> (1 \<le> month \<and> month \<le> 12) then Inl ValueError
      else Inr (days_in_month year month))"

definition days_before_year :: "int \<Rightarrow> int" where
  "days_before_year y = (y - 1) * 365 + (y - 1) div 4 - (y - 1) div 100 + (y - 1) div 400"

definition days_before_month :: "int \<Rightarrow> int \<Rightarrow> int" where
  "days_before_month y m = sum_list (map (days_in_month y) [1..m - 1])"

definition ymd2ord :: "int \<Rightarrow> int \<Rightarrow> int \<Rightarrow> date" where
  "ymd2ord y m d = days_before_year y + days_before_month y m + d"

definition MAXORDINAL :: int where
  "MAXORDINAL = 3652059"

text \<open>\<open>dt.date(year, month, day)\<close>.\<close>

definition date_new :: "int \<Rightarrow> int \<Rightarrow> int \<Rightarrow> pyerr + date" where
  "date_new y m d =
     (if 1 \<le> y \<and> y \<le> 9999 \<and> 1 \<le> m \<and> m \<le> 12 \<and> 1 \<le> d \<and> d \<le> days_in_month y m
      then Inr (ymd2ord y m d) else Inl ValueError)"

text \<open>\<open>cur + dt.timedelta(days=1)\<close>: past \<open>date.max\<close> it raises \<open>OverflowError\<close>.\<close>

definition add_day :: "date \<Rightarrow> pyerr + date" where
  "add_day cur = (if 1 \<le> cur + 1 \<and> cur + 1 \<le> MAXORDINAL then Inr (cur + 1) else Inl OverflowError)"

definition ord2ymd :: "date \<Rightarrow> int \<times> int \<times> int" where
  "ord2ymd ordinal =
     (let n = ordinal - 1;
          n400 = n div 146097; na = n mod 146097;
          n100 = na div 36524; nb = na mod 36524;
          n4 = nb div 1461; nc = nb mod 1461;
          n1 = nc div 365; nd = nc mod 365;
          year = n400 * 400 + 1 + n100 * 100 + n4 * 4 + n1
      in if n1 = 4 \<or> n100 = 4 then (year - 1, 12, 31)
         else
           let leapyear = (n1 = 3 \<and> (n4 \<noteq> 24 \<or> n100 = 3));
               month = (nd + 50) div 32;
               preceding = sum_list (map mdays [1..month - 1])
                             + (if month > 2 \<and> leapyear then 1 else 0)
           in if preceding > nd
              then (year, month - 1,
                    nd - (preceding - (mdays (month - 1)
                                        + (if month - 1 = 2 \<and> leapyear then 1 else 0))) + 1)
              else (year, month, nd - preceding + 1))"

fun digits :: "nat \<Rightarrow> string" where
  "digits n = (if n < 10 then [''0123456789'' ! n]
               else digits (n div 10) @ [''0123456789'' ! (n mod 10)])"

declare digits.simps [simp del]

definition zero_pad :: "nat \<Rightarrow> int \<Rightarrow> string" where
  "zero_pad w n = (let s = digits (nat n) in replicate (w - length s) CHR ''0'' @ s)"

text \<open>\<open>cur.strftime("%Y-%m-%d")\<close>, the year on four digits.\<close>

definition strftime :: "date \<Rightarrow> string" where
  "strftime cur =
     (case ord2ymd cur of
        (y, m, d) \<Rightarrow> zero_pad 4 y @ ''-'' @ zero_pad 2 m @ ''-'' @ zero_pad 2 d)"

section \<open>Daily Record Fetcher\<close>

text \<open>
  The network is a function from a request (URL and query parameters) to what
  \<open>requests.get\<close> does with it: it raises (\<open>TransportError\<close>), or answers with a status
  code and a body, whose \<open>r.json()\<close> is a value or raises (\<open>None\<close>). Every request made
  is appended to a log (\<open>sent\<close>) that the functions pass along.
\<close>

datatype http_result = TransportError | Response int "json option"

type_synonym http = "string \<Rightarrow> (string \<times> string) list \<Rightarrow> http_result"

definition BASE_DAILY :: string where
  "BASE_DAILY = ''https://evstats.gr/api/dailyBevModels/''"

definition BASE_MAKER :: string where
  "BASE_MAKER = ''https://evstats.gr/api/makerMetrics''"

definition MAKERS :: "string list" where
  "MAKERS = [''total'', ''byd'', ''volvo'', ''hyundai'', ''tesla'', ''geely'', ''leapmotor'']"

text \<open>
  \<^verbatim>\<open>
  def fetch_daily(date_str):
      url = f"{BASE_DAILY}{date_str}"
      try:
          r = requests.get(url, timeout=30)
          if r.status_code != 200:
              return None
          data = r.json()
          if isinstance(data, dict):
              return data
          return None
      except Exception:
          return None
  \<close>
\<close>

definition fetch_daily :: "http \<Rightarrow> string list \<Rightarrow> string \<Rightarrow> string list \<times> json option" where
  "fetch_daily http sent date_str =
     (let url = BASE_DAILY @ date_str in
      (sent @ [url],
       case http url [] of
         TransportError \<Rightarrow> None
       | Response status_code body \<Rightarrow>
           if status_code \<noteq> 200 then None
           else (case body of
                   None \<Rightarrow> None
                 | Some data \<Rightarrow> if is_dict data then Some data else None)))"

section \<open>Monthly Aggregator\<close>

text \<open>Truthiness of \<open>js\<close> in \<open>extract_car_models(js) if js else {}\<close>: an empty dict is false.\<close>

fun py_truthy :: "json option \<Rightarrow> bool" where
  "py_truthy None = False"
| "py_truthy (Some (JDict d)) = (d \<noteq> [])"
| "py_truthy (Some j) = True"

definition day_models :: "json option \<Rightarrow> pyerr + pydict" where
  "day_models js = (case js of
                      Some j \<Rightarrow> if py_truthy js then extract_car_models j else Inr []
                    | None \<Rightarrow> Inr [])"

text \<open>
  The inner loop \<open>for m, c in models.items(): row[m] = c; aggregated[m] =
  aggregated.get(m, 0) + int(c)\<close>. \<open>int(c)\<close> is not inside any \<open>try\<close>: when it raises,
  the aggregator raises.
\<close>

fun add_models ::
  "(string \<Rightarrow> int option) \<Rightarrow> pydict \<Rightarrow> pydict \<Rightarrow> (string \<times> int) list
     \<Rightarrow> pyerr + (pydict \<times> (string \<times> int) list)" where
  "add_models int_str [] row aggregated = Inr (row, aggregated)"
| "add_models int_str ((m, c) # items) row aggregated =
     (case py_int int_str c of
        Inl e \<Rightarrow> Inl e
      | Inr n \<Rightarrow>
          add_models int_str items (AList.update m c row)
            (AList.update m (dict_get aggregated m 0 + n) aggregated))"

record loop_state =
  aggregated :: "(string \<times> int) list"
  daily_rows :: "pydict list"

text \<open>One pass through the body of the \<open>while\<close> loop, up to \<open>daily_rows.append(row)\<close>.\<close>

definition day_step ::
  "(string \<Rightarrow> int option) \<Rightarrow> http \<Rightarrow> date \<Rightarrow> loop_state \<Rightarrow> string list
     \<Rightarrow> string list \<times> (pyerr + loop_state)" where
  "day_step int_str http cur st sent =
     (let date_str = strftime cur;
          fetched = fetch_daily http sent date_str
      in (fst fetched,
          case day_models (snd fetched) of
            Inl e \<Rightarrow> Inl e
          | Inr models \<Rightarrow>
              (case add_models int_str (py_items models) [(''Date'', JStr date_str)]
                      (aggregated st) of
                 Inl e \<Rightarrow> Inl e
               | Inr (row, agg) \<Rightarrow>
                   Inr \<lparr>aggregated = agg, daily_rows = daily_rows st @ [row]\<rparr>)))"

function month_loop ::
  "(string \<Rightarrow> int option) \<Rightarrow> http \<Rightarrow> date \<Rightarrow> date \<Rightarrow> loop_state \<Rightarrow> string list
     \<Rightarrow> string list \<times> (pyerr + loop_state)" where
  "month_loop int_str http cur end_date st sent =
     (if cur \<le> end_date then
        (case day_step int_str http cur st sent of
           (sent', Inl e) \<Rightarrow> (sent', Inl e)
         | (sent', Inr st') \<Rightarrow>
             (case add_day cur of
                Inl e \<Rightarrow> (sent', Inl e)
              | Inr cur' \<Rightarrow> month_loop int_str http cur' end_date st' sent'))
      else (sent, Inr st))"
  by pat_completeness auto
termination
  by (relation "measure (\<lambda>(int_str, http, cur, end_date, st, sent). nat (end_date + 1 - cur))")
     (auto simp: add_day_def split: if_splits)

declare month_loop.simps [simp del]

text \<open>
  A table (\<open>pd.DataFrame\<close>) is the list of its columns, each a name and its cells;
  \<open>pd.DataFrame()\<close> is the empty list. \<open>pd.DataFrame(daily_rows)\<close> takes the columns in
  the order the keys first appear and leaves \<open>NaN\<close> where a row has no such key.
\<close>

type_synonym frame = "(string \<times> json list) list"

definition columns_of_rows :: "pydict list \<Rightarrow> string list" where
  "columns_of_rows rows = rev (remdups (rev (concat (map (map fst) rows))))"

text \<open>
  An integer stored in a float64 column is rounded to 53 significant bits, to nearest and
  ties to even; a magnitude of \<open>2^1024\<close> or more has no float64 and is taken as infinity.
  A number with a fractional part came from the JSON document as a float and is its own
  float64.
\<close>

function bit_length :: "int \<Rightarrow> nat" where
  "bit_length n = (if n \<le> 0 then 0 else Suc (bit_length (n div 2)))"
  by pat_completeness auto
termination
  by (relation "measure nat") auto

declare bit_length.simps [simp del]

definition round_half_even :: "int \<Rightarrow> nat \<Rightarrow> int" where
  "round_half_even n s =
     (let q = n div 2 ^ s; r = n mod 2 ^ s
      in if 2 * r > 2 ^ s \<or> (2 * r = 2 ^ s \<and> odd q) then q + 1 else q)"

definition float64_of_int :: "int \<Rightarrow> pynum" where
  "float64_of_int n =
     (let s = bit_length \<bar>n\<bar> - 53;
          m = round_half_even \<bar>n\<bar> s * 2 ^ s
      in if bit_length m > 1024 then (if n < 0 then NegInf else PosInf)
         else Fin (of_int (if n < 0 then - m else m)))"

definition is_integral :: "rat \<Rightarrow> bool" where
  "is_integral q = (of_int \<lfloor>q\<rfloor> = q)"

definition float64 :: "rat \<Rightarrow> pynum" where
  "float64 q = (if is_integral q then float64_of_int \<lfloor>q\<rfloor> else Fin q)"

text \<open>
  The type pandas gives a column. A column whose cells are all numbers or missing is
  numeric: int64 when every cell is an integer, and float64 as soon as one cell is
  missing, \<open>None\<close>, infinite or fractional; then every cell is stored as a float64.
  A column holding anything else (a string, a boolean, a list) keeps its cells as they
  are.
\<close>

fun numeric_or_null :: "json \<Rightarrow> bool" where
  "numeric_or_null JNull = True"
| "numeric_or_null (JNum n) = True"
| "numeric_or_null j = False"

fun integral_cell :: "json \<Rightarrow> bool" where
  "integral_cell (JNum (Fin q)) = is_integral q"
| "integral_cell j = False"

fun to_float64_cell :: "json \<Rightarrow> json" where
  "to_float64_cell JNull = JNum NaN"
| "to_float64_cell (JNum (Fin q)) = JNum (float64 q)"
| "to_float64_cell j = j"

definition float_column :: "json list \<Rightarrow> bool" where
  "float_column cells = (list_all numeric_or_null cells \<and> \<not> list_all integral_cell cells)"

definition infer_dtype :: "json list \<Rightarrow> json list" where
  "infer_dtype cells = (if float_column cells then map to_float64_cell cells else cells)"

definition DataFrame_rows :: "pydict list \<Rightarrow> frame" where
  "DataFrame_rows rows =
     map (\<lambda>c. (c, infer_dtype (map (\<lambda>r. dict_get r c (JNum NaN)) rows)))
       (columns_of_rows rows)"

fun isna :: "json \<Rightarrow> bool" where
  "isna JNull = True"
| "isna (JNum NaN) = True"
| "isna j = False"

definition fillna_cell :: "json \<Rightarrow> json \<Rightarrow> json" where
  "fillna_cell v x = (if isna x then v else x)"

definition fillna :: "json \<Rightarrow> frame \<Rightarrow> frame" where
  "fillna v df = map (\<lambda>(c, xs). (c, map (fillna_cell v) xs)) df"

definition zero :: json where
  "zero = JNum (Fin 0)"

text \<open>
  \<open>sort_values(by, ascending=False)\<close> on an integer column. The order pandas gives to
  rows with equal keys is not fixed by the program; the model takes the stable one.
\<close>

definition sort_values_desc :: "('a \<Rightarrow> int) \<Rightarrow> 'a list \<Rightarrow> 'a list" where
  "sort_values_desc f xs = sort_key (\<lambda>x. - f x) xs"

definition summary_of :: "(string \<times> int) list \<Rightarrow> (string \<times> int) list" where
  "summary_of agg = (if agg \<noteq> [] then sort_values_desc snd (py_items agg) else [])"

text \<open>
  \<^verbatim>\<open>
  def fetch_month_daily_aggregated(year, month):
      last_day = calendar.monthrange(year, month)[1]
      start = dt.date(year, month, 1)
      end = dt.date(year, month, last_day)
      if start > TODAY:
          return pd.DataFrame(), pd.DataFrame()
      end = min(end, TODAY)
      aggregated = {}; daily_rows = []
      cur = start
      while cur <= end: ...
      daily_df = pd.DataFrame(daily_rows).fillna(0)
      if aggregated: summary_df = ... .sort_values("Count", ascending=False)
      else: summary_df = pd.DataFrame(columns=["Model", "Count"])
      return daily_df, summary_df
  \<close>
  The summary table is the list of its rows, (Model, Count).
\<close>

definition fetch_month_daily_aggregated ::
  "(string \<Rightarrow> int option) \<Rightarrow> http \<Rightarrow> date \<Rightarrow> string list \<Rightarrow> int \<Rightarrow> int
     \<Rightarrow> string list \<times> (pyerr + (frame \<times> (string \<times> int) list))" where
  "fetch_month_daily_aggregated int_str http TODAY sent year month =
     (case monthrange year month of
        Inl e \<Rightarrow> (sent, Inl e)
      | Inr last_day \<Rightarrow>
     (case date_new year month 1 of
        Inl e \<Rightarrow> (sent, Inl e)
      | Inr start \<Rightarrow>
     (case date_new year month last_day of
        Inl e \<Rightarrow> (sent, Inl e)
      | Inr end_date \<Rightarrow>
          if start > TODAY then (sent, Inr ([], []))
          else
            (case month_loop int_str http start (min end_date TODAY)
                    \<lparr>aggregated = [], daily_rows = []\<rparr> sent of
               (sent', Inl e) \<Rightarrow> (sent', Inl e)
             | (sent', Inr st) \<Rightarrow>
                 (sent', Inr (fillna zero (DataFrame_rows (daily_rows st)),
                             summary_of (aggregated st)))))))"

section \<open>Maker-Metrics Fetcher and Normalizer\<close>

text \<open>\<open>json.dumps\<close> of a list of plain ASCII strings.\<close>

fun join_strs :: "string \<Rightarrow> string list \<Rightarrow> string" where
  "join_strs sep [] = []"
| "join_strs sep [x] = x"
| "join_strs sep (x # y # ys) = x @ sep @ join_strs sep (y # ys)"

definition json_dumps_strs :: "string list \<Rightarrow> string" where
  "json_dumps_strs xs =
     ''['' @ join_strs '', '' (map (\<lambda>x. [CHR 0x22] @ x @ [CHR 0x22]) xs) @ '']''"

text \<open>
  The column of one maker when \<open>data\<close> is a dict (lines 163 to 169):
  \<^verbatim>\<open>
  series = data.get(maker, [])
  if isinstance(series, list) and len(series) == len(periods):
      df[maker] = series
  else:
      df[maker] = [None] * len(periods)
  \<close>
\<close>

definition maker_series_dict :: "json list \<Rightarrow> pydict \<Rightarrow> string \<Rightarrow> json list" where
  "maker_series_dict periods data maker =
     (case dict_get data maker (JList []) of
        JList series \<Rightarrow>
          if length series = length periods then series
          else replicate (length periods) JNull
      | other \<Rightarrow> replicate (length periods) JNull)"

text \<open>
  The column of one maker when \<open>data\<close> is a list of rows (lines 175 to 183): \<open>data[i]\<close>
  raises \<open>IndexError\<close> past the end of the list and \<open>entry.get\<close> raises
  \<open>AttributeError\<close> on anything but a dict; both are caught and give \<open>None\<close>.
\<close>

definition entry_cell :: "json list \<Rightarrow> nat \<Rightarrow> string \<Rightarrow> pyerr + json" where
  "entry_cell data i maker =
     (if i < length data then
        (case data ! i of
           JDict entry \<Rightarrow> Inr (dict_get entry maker JNull)
         | other \<Rightarrow> Inl AttributeError)
      else Inl IndexError)"

definition maker_series_list :: "json list \<Rightarrow> json list \<Rightarrow> string \<Rightarrow> json list" where
  "maker_series_list periods data maker =
     map (\<lambda>i. case entry_cell data i maker of Inr v \<Rightarrow> v | Inl e \<Rightarrow> JNull)
       [0..<length periods]"

text \<open>\<open>df[name] = cells\<close>, \<open>name in df.columns\<close> and \<open>df.drop(columns=[name])\<close>.\<close>

definition set_column :: "string \<Rightarrow> json list \<Rightarrow> frame \<Rightarrow> frame" where
  "set_column name cells df = AList.update name cells df"

definition has_column :: "frame \<Rightarrow> string \<Rightarrow> bool" where
  "has_column df name = (map_of df name \<noteq> None)"

definition drop_column :: "string \<Rightarrow> frame \<Rightarrow> frame" where
  "drop_column name df = AList.delete name df"

text \<open>
  Lines 160 to 183: the frame of the periods and one column for every maker. pandas
  types the \<open>Period\<close> column when the frame is built. A maker column is typed when it
  is assigned and again by \<open>to_numeric\<close> below; the model types it there, once, since
  a float64 is its own float64.
\<close>

definition raw_frame :: "json list \<Rightarrow> json \<Rightarrow> frame" where
  "raw_frame periods data =
     (case data of
        JDict d \<Rightarrow>
          foldl (\<lambda>df maker. set_column maker (maker_series_dict periods d maker) df)
            [(''Period'', infer_dtype periods)] MAKERS
      | JList l \<Rightarrow>
          foldl (\<lambda>df maker. set_column maker (maker_series_list periods l maker) df)
            [(''Period'', infer_dtype periods)] MAKERS
      | other \<Rightarrow> [(''Period'', infer_dtype periods)])"

text \<open>Lines 186 to 188.\<close>

definition drop_unwanted :: "frame \<Rightarrow> frame" where
  "drop_unwanted df =
     foldl (\<lambda>df col. if has_column df col then drop_column col df else df) df
       [''acc'', ''bevshare'']"

text \<open>
  \<open>pd.to_numeric(column, errors="coerce")\<close>: cell by cell a number stays, a boolean is
  1 or 0, \<open>None\<close> and whatever cannot be read as a number become \<open>NaN\<close>; the column
  is then int64 or float64 as above. How pandas reads a string is the parameter
  \<open>num_str\<close> (\<open>NaN\<close> where it cannot).
\<close>

fun to_numeric_cell :: "(string \<Rightarrow> pynum) \<Rightarrow> json \<Rightarrow> json" where
  "to_numeric_cell num_str JNull = JNum NaN"
| "to_numeric_cell num_str (JBool b) = JNum (Fin (if b then 1 else 0))"
| "to_numeric_cell num_str (JNum n) = JNum n"
| "to_numeric_cell num_str (JStr s) = JNum (num_str s)"
| "to_numeric_cell num_str (JList xs) = JNum NaN"
| "to_numeric_cell num_str (JDict d) = JNum NaN"

definition to_numeric :: "(string \<Rightarrow> pynum) \<Rightarrow> json list \<Rightarrow> json list" where
  "to_numeric num_str cells = infer_dtype (map (to_numeric_cell num_str) cells)"

text \<open>Lines 191 to 193: \<open>df[maker] = pd.to_numeric(df[maker], errors="coerce").fillna(0)\<close>.\<close>

definition coerce_column :: "(string \<Rightarrow> pynum) \<Rightarrow> json list \<Rightarrow> json list" where
  "coerce_column num_str cells = map (fillna_cell zero) (to_numeric num_str cells)"

definition coerce_makers :: "(string \<Rightarrow> pynum) \<Rightarrow> frame \<Rightarrow> frame" where
  "coerce_makers num_str df =
     foldl (\<lambda>df maker.
              case map_of df maker of
                Some cells \<Rightarrow> set_column maker (coerce_column num_str cells) df
              | None \<Rightarrow> df)
       df MAKERS"

text \<open>\<open>df.tail(n)\<close>: the last \<open>n\<close> rows.\<close>

definition df_tail :: "nat \<Rightarrow> frame \<Rightarrow> frame" where
  "df_tail n df = map (\<lambda>(c, xs). (c, drop (length xs - n) xs)) df"

definition window :: "string \<Rightarrow> nat" where
  "window time_period =
     (if time_period = ''month'' then 18
      else if time_period = ''quarter'' then 12
      else 10)"

text \<open>Lines 148 to 154: \<open>periods\<close>, and \<open>data\<close> with one level of nesting unwrapped.\<close>

definition unwrap_data :: "json \<Rightarrow> json" where
  "unwrap_data data =
     (case data of
        JDict d \<Rightarrow>
          (case map_of d ''data'' of
             Some (JDict inner) \<Rightarrow> JDict inner
           | other \<Rightarrow> data)
      | other \<Rightarrow> data)"

text \<open>Lines 145 to 193: the table before the trailing window, or nothing.\<close>

definition normalized_full :: "(string \<Rightarrow> pynum) \<Rightarrow> json \<Rightarrow> frame option" where
  "normalized_full num_str js =
     (case js of
        JDict d \<Rightarrow>
          (let periods = dict_get d ''periods'' (JList []);
               data = unwrap_data (dict_get d ''data'' (JDict []))
           in case periods of
                JList ps \<Rightarrow>
                  if is_dict data \<or> is_list data
                  then Some (coerce_makers num_str (drop_unwanted (raw_frame ps data)))
                  else None
              | other \<Rightarrow> None)
      | other \<Rightarrow> None)"

text \<open>
  \<open>fetch_maker_metrics\<close>. Whatever raises inside its \<open>try\<close> gives the empty table; the
  operations of pandas on the frame are total in the model.
\<close>

definition fetch_maker_metrics :: "(string \<Rightarrow> pynum) \<Rightarrow> http \<Rightarrow> string \<Rightarrow> frame" where
  "fetch_maker_metrics num_str http time_period =
     (if time_period \<noteq> ''month'' \<and> time_period \<noteq> ''quarter'' \<and> time_period \<noteq> ''year''
      then []
      else
        (case http BASE_MAKER
                [(''filterMakers'', json_dumps_strs MAKERS), (''timePeriod'', time_period)] of
           TransportError \<Rightarrow> []
         | Response status_code body \<Rightarrow>
             if status_code \<noteq> 200 then []
             else
               (case body of
                  None \<Rightarrow> []
                | Some js \<Rightarrow>
                    (case normalized_full num_str js of
                       None \<Rightarrow> []
                     | Some df \<Rightarrow> df_tail (window time_period) df))))"

section \<open>Latest-Value Summarizer\<close>

text \<open>
  \<^verbatim>\<open>
  def maker_latest_list(df):
      if df.empty:
          return pd.DataFrame(columns=["Maker", "Latest"])
      latest = df.iloc[-1]
      out = []
      for maker in MAKERS:
          if maker in df.columns:
              out.append({"Maker": maker, "Latest": int(latest[maker])})
      return pd.DataFrame(out).sort_values("Latest", ascending=False).reset_index(drop=True)
  \<close>
  The number of rows of a table is the length of its first column. With no maker
  column \<open>out\<close> is empty and \<open>sort_values("Latest")\<close> raises \<open>KeyError\<close>.
\<close>

definition nrows :: "frame \<Rightarrow> nat" where
  "nrows df = (case df of [] \<Rightarrow> 0 | (c, xs) # rest \<Rightarrow> length xs)"

definition df_empty :: "frame \<Rightarrow> bool" where
  "df_empty df = (df = [] \<or> nrows df = 0)"

definition latest_cell :: "frame \<Rightarrow> string \<Rightarrow> pyerr + json" where
  "latest_cell df maker =
     (case map_of df maker of
        None \<Rightarrow> Inl KeyError
      | Some cells \<Rightarrow> if cells = [] then Inl IndexError else Inr (last cells))"

fun latest_rows ::
  "(string \<Rightarrow> int option) \<Rightarrow> frame \<Rightarrow> string list \<Rightarrow> pyerr + (string \<times> int) list" where
  "latest_rows int_str df [] = Inr []"
| "latest_rows int_str df (maker # rest) =
     (if has_column df maker then
        (case latest_cell df maker of
           Inl e \<Rightarrow> Inl e
         | Inr v \<Rightarrow>
             (case py_int int_str v of
                Inl e \<Rightarrow> Inl e
              | Inr n \<Rightarrow>
                  (case latest_rows int_str df rest of
                     Inl e \<Rightarrow> Inl e
                   | Inr out \<Rightarrow> Inr ((maker, n) # out))))
      else latest_rows int_str df rest)"

definition maker_latest_list ::
  "(string \<Rightarrow> int option) \<Rightarrow> frame \<Rightarrow> pyerr + (string \<times> int) list" where
  "maker_latest_list int_str df =
     (if df_empty df then Inr []
      else
        (case latest_rows int_str df MAKERS of
           Inl e \<Rightarrow> Inl e
         | Inr out \<Rightarrow>
             if out = [] then Inl KeyError
             else Inr (sort_values_desc snd out)))"

section \<open>Vocabulary of the properties\<close>

text \<open>
  The days a run of the aggregator iterates over (lines 70 to 84), the ModelCountMap of
  one day as the loop body obtains it (lines 85 to 88), and the count a day contributes
  for a model. The list of days is empty when the month starts after \<open>TODAY\<close>.
\<close>

definition month_days :: "date \<Rightarrow> int \<Rightarrow> int \<Rightarrow> date list" where
  "month_days TODAY year month =
     [ymd2ord year month 1 ..
        min (ymd2ord year month (days_in_month year month)) TODAY]"

definition daily_url :: "date \<Rightarrow> string" where
  "daily_url d = BASE_DAILY @ strftime d"

definition models_of_day :: "http \<Rightarrow> date \<Rightarrow> pydict" where
  "models_of_day http d =
     (case day_models (snd (fetch_daily http [] (strftime d))) of
        Inr models \<Rightarrow> py_items models
      | Inl e \<Rightarrow> [])"

definition count_of :: "(string \<Rightarrow> int option) \<Rightarrow> pydict \<Rightarrow> string \<Rightarrow> int" where
  "count_of int_str models m =
     (case map_of models m of
        None \<Rightarrow> 0
      | Some c \<Rightarrow> (case py_int int_str c of Inr n \<Rightarrow> n | Inl e \<Rightarrow> 0))"

definition convertible :: "(string \<Rightarrow> int option) \<Rightarrow> pydict \<Rightarrow> bool" where
  "convertible int_str models = list_all (\<lambda>(m, c). \<not> isl (py_int int_str c)) models"

text \<open>The accumulator and the row after the inner loop, when no \<open>int(c)\<close> raises.\<close>

fun agg_items ::
  "(string \<Rightarrow> int option) \<Rightarrow> pydict \<Rightarrow> (string \<times> int) list \<Rightarrow> (string \<times> int) list" where
  "agg_items int_str [] agg = agg"
| "agg_items int_str ((m, c) # items) agg =
     agg_items int_str items
       (AList.update m
          (dict_get agg m 0 + (case py_int int_str c of Inr n \<Rightarrow> n | Inl e \<Rightarrow> 0)) agg)"

fun row_items :: "pydict \<Rightarrow> pydict \<Rightarrow> pydict" where
  "row_items [] row = row"
| "row_items ((m, c) # items) row = row_items items (AList.update m c row)"

definition row_of_day :: "http \<Rightarrow> date \<Rightarrow> pydict" where
  "row_of_day http d = row_items (models_of_day http d) [(''Date'', JStr (strftime d))]"

definition descending :: "int list \<Rightarrow> bool" where
  "descending xs = sorted (rev xs)"

text \<open>
  The example of the specification: the daily endpoint answers for 2025-03-01 and
  2025-03-02 and for no other day.
\<close>

definition daily_document :: "pydict \<Rightarrow> json" where
  "daily_document models = JDict [(''v2'', JDict [(''cars'', JDict [(''models'', JDict models)])])]"

definition example_http :: http where
  "example_http url params =
     (if url = BASE_DAILY @ ''2025-03-01''
      then Response 200 (Some (daily_document [(''ModelA'', JNum (Fin 2))]))
      else if url = BASE_DAILY @ ''2025-03-02''
      then Response 200 (Some (daily_document
                                 [(''ModelA'', JNum (Fin 1)), (''ModelB'', JNum (Fin 5))]))
      else TransportError)"

text \<open>
  Two daily documents with a malformed count: \<open>{"ModelA": null}\<close> and
  \<open>{"ModelA": "n/a"}\<close>, each served for 2025-03-01.
\<close>

definition null_count_http :: http where
  "null_count_http url params =
     (if url = BASE_DAILY @ ''2025-03-01''
      then Response 200 (Some (daily_document [(''ModelA'', JNull)]))
      else TransportError)"

definition text_count_http :: http where
  "text_count_http url params =
     (if url = BASE_DAILY @ ''2025-03-01''
      then Response 200 (Some (daily_document [(''ModelA'', JStr ''n/a'')]))
      else TransportError)"

text \<open>
  A daily document with a model whose name is \<open>Date\<close>: \<open>{"Date": 5, "B": 1}\<close> for
  2025-03-01, and no answer for any other day.
\<close>

definition date_model_http :: http where
  "date_model_http url params =
     (if url = BASE_DAILY @ ''2025-03-01''
      then Response 200 (Some (daily_document [(''Date'', JNum (Fin 5)), (''B'', JNum (Fin 1))]))
      else TransportError)"

text \<open>
  The request of \<open>fetch_maker_metrics\<close>, the raw series of a maker (lines 162 to 183),
  and the responses of the examples: the one of the specification, one whose \<open>periods\<close>
  is not a sequence, and one in which tesla's only value is the JSON number \<open>1e999\<close>,
  which \<open>r.json()\<close> reads as the float infinity.
\<close>

definition maker_params :: "string \<Rightarrow> (string \<times> string) list" where
  "maker_params time_period =
     [(''filterMakers'', json_dumps_strs MAKERS), (''timePeriod'', time_period)]"

definition maker_series :: "json list \<Rightarrow> json \<Rightarrow> string \<Rightarrow> json list" where
  "maker_series periods data maker =
     (case data of
        JDict d \<Rightarrow> maker_series_dict periods d maker
      | JList l \<Rightarrow> maker_series_list periods l maker
      | other \<Rightarrow> [])"

text \<open>The shape of every table the normalizer builds: the periods and the seven makers.\<close>

definition maker_table :: "json list \<Rightarrow> (string \<Rightarrow> json list) \<Rightarrow> frame" where
  "maker_table ps f =
     [(''Period'', ps), (''total'', f ''total''), (''byd'', f ''byd''), (''volvo'', f ''volvo''),
      (''hyundai'', f ''hyundai''), (''tesla'', f ''tesla''), (''geely'', f ''geely''),
      (''leapmotor'', f ''leapmotor'')]"

definition valid_bucket :: "string \<Rightarrow> bool" where
  "valid_bucket time_period =
     (time_period = ''month'' \<or> time_period = ''quarter'' \<or> time_period = ''year'')"

definition answer :: "json \<Rightarrow> http" where
  "answer js url params = Response 200 (Some js)"

definition example_metrics :: json where
  "example_metrics =
     JDict [(''periods'', JList [JStr ''2024-01'', JStr ''2024-02'']),
            (''data'', JDict [(''tesla'', JList [JNum (Fin 10), JNum (Fin 20)])])]"

definition bad_periods_metrics :: json where
  "bad_periods_metrics =
     JDict [(''periods'', JStr ''2024-01''),
            (''data'', JDict [(''tesla'', JList [JNum (Fin 10)])])]"

definition infinite_metrics :: json where
  "infinite_metrics =
     JDict [(''periods'', JList [JStr ''2024'']),
            (''data'', JDict [(''tesla'', JList [JNum PosInf])])]"

text \<open>A table as the data model of the specification allows it: a maker's series of nulls.\<close>

definition null_series_table :: frame where
  "null_series_table =
     [(''Period'', [JStr ''2024-01'', JStr ''2024-02'']),
      (''tesla'', [JNum (Fin 10), JNum (Fin 20)]),
      (''byd'', [JNull, JNull])]"

section \<open>Properties of the extractor\<close>

lemma spec_descend_Cons:
  "spec_descend j (k # ks) =
     (case getitem j k of Inr a \<Rightarrow> spec_descend a ks | Inl e \<Rightarrow> None)"
  by (cases j) (auto split: option.splits)

lemma spec_descend_descend3:
  "spec_descend j [tag, ''cars'', ''models''] =
     (case descend3 j tag of Inr v \<Rightarrow> Some v | Inl e \<Rightarrow> None)"
  unfolding spec_descend_Cons descend3_def
  by (simp split: sum.splits)

lemma probe_step:
  "probe_versions j (tag # rest) =
     (case spec_probe j tag of Some m \<Rightarrow> Inr m | None \<Rightarrow> probe_versions j rest)"
proof (cases "descend3 j tag")
  case (Inl e)
  then show ?thesis
    by (simp add: spec_probe_def spec_descend_descend3 del: spec_descend.simps)
next
  case (Inr v)
  then show ?thesis
    by (cases v) (simp_all add: spec_probe_def spec_descend_descend3 del: spec_descend.simps)
qed

lemma spec_probe_not_dict: "\<not> is_dict j \<Longrightarrow> spec_probe j tag = None"
  by (cases j) (simp_all add: spec_probe_def)

lemma extract_car_models_spec: "extract_car_models j = Inr (spec_extract j)"
proof (cases "is_dict j")
  case False
  then show ?thesis
    by (simp add: extract_car_models_def spec_extract_def spec_probe_not_dict)
next
  case True
  then show ?thesis
    by (simp add: extract_car_models_def spec_extract_def probe_step
        del: probe_versions.simps(2) split: option.splits)
qed

text \<open>
  C5. For every input value the extractor returns (it never raises), and what it returns
  is the mapping at \<open>v2 \<rightarrow> cars \<rightarrow> models\<close> when that path ends in a mapping, otherwise the
  mapping at \<open>v1 \<rightarrow> cars \<rightarrow> models\<close> when that one does, otherwise the empty map; an input
  that is absent, not a mapping, or has neither path yields the empty map.
\<close>

theorem C5_extract_car_models_refines_spec:
  "extract_car_models j = Inr (spec_extract j)
   \<and> (spec_probe j ''v2'' = None \<and> spec_probe j ''v1'' = None
        \<longrightarrow> extract_car_models j = Inr [])
   \<and> extract_car_models JNull = Inr []"
  using extract_car_models_spec [of j] extract_car_models_spec [of JNull]
  by (simp add: spec_extract_def spec_probe_def)

theorem C5_extract_car_models_witness:
  "spec_probe (JDict [(''v2'', JDict [(''cars'', JList [])])]) ''v2'' = None
   \<and> spec_probe (JDict [(''v2'', JDict [(''cars'', JList [])])]) ''v1'' = None
   \<and> extract_car_models (JDict [(''v2'', JDict [(''cars'', JList [])])]) = Inr []
   \<and> extract_car_models
         (JDict [(''v2'', JDict [(''cars'', JDict [(''models'',
            JDict [(''ModelA'', JNum (Fin 3)), (''ModelB'', JNum (Fin 1))])])])])
       = Inr [(''ModelA'', JNum (Fin 3)), (''ModelB'', JNum (Fin 1))]"
  using C5_extract_car_models_refines_spec
          [of "JDict [(''v2'', JDict [(''cars'', JList [])])]"]
        C5_extract_car_models_refines_spec
          [of "JDict [(''v2'', JDict [(''cars'', JDict [(''models'',
                 JDict [(''ModelA'', JNum (Fin 3)), (''ModelB'', JNum (Fin 1))])])])]"]
  by (simp add: spec_extract_def spec_probe_def)

section \<open>Properties of the aggregator loop\<close>

lemma day_models_Inr: "\<exists>m. day_models js = Inr m"
  by (cases js) (auto simp: day_models_def extract_car_models_spec)

lemma fetch_daily_snd: "snd (fetch_daily http sent s) = snd (fetch_daily http [] s)"
  by (simp add: fetch_daily_def Let_def)

lemma fetch_daily_fst: "fst (fetch_daily http sent s) = sent @ [BASE_DAILY @ s]"
  by (simp add: fetch_daily_def Let_def)

lemma distinct_models_of_day: "distinct (map fst (models_of_day http d))"
  by (auto simp: models_of_day_def py_items_def distinct_clearjunk split: sum.splits)

lemma add_models_Inr:
  "add_models int_str items row agg = Inr (row', agg') \<Longrightarrow>
   agg' = agg_items int_str items agg \<and> row' = row_items items row \<and> convertible int_str items"
  by (induction items arbitrary: row agg)
     (auto simp: convertible_def split: sum.splits)

lemma add_models_convertible:
  "convertible int_str items \<Longrightarrow>
   add_models int_str items row agg = Inr (row_items items row, agg_items int_str items agg)"
  by (induction items arbitrary: row agg)
     (auto simp: convertible_def split: sum.splits)

lemma add_models_not_convertible:
  "\<not> convertible int_str items \<Longrightarrow> \<exists>e. add_models int_str items row agg = Inl e"
  by (induction items arbitrary: row agg)
     (auto simp: convertible_def split: sum.splits)

lemma day_step_fst: "fst (day_step int_str http cur st sent) = sent @ [daily_url cur]"
  by (simp add: day_step_def Let_def fetch_daily_fst daily_url_def)

lemma day_step_convertible:
  assumes "convertible int_str (models_of_day http cur)"
  shows "snd (day_step int_str http cur st sent) =
           Inr \<lparr>aggregated = agg_items int_str (models_of_day http cur) (aggregated st),
                daily_rows = daily_rows st @ [row_of_day http cur]\<rparr>"
proof -
  obtain m where m: "day_models (snd (fetch_daily http [] (strftime cur))) = Inr m"
    using day_models_Inr by blast
  then have items: "py_items m = models_of_day http cur"
    by (simp add: models_of_day_def)
  show ?thesis
    using assms m
    by (simp add: day_step_def Let_def fetch_daily_snd [of http sent] items
        add_models_convertible row_of_day_def)
qed

lemma day_step_not_convertible:
  assumes "\<not> convertible int_str (models_of_day http cur)"
  shows "\<exists>e. snd (day_step int_str http cur st sent) = Inl e"
proof -
  obtain m where m: "day_models (snd (fetch_daily http [] (strftime cur))) = Inr m"
    using day_models_Inr by blast
  then have items: "py_items m = models_of_day http cur"
    by (simp add: models_of_day_def)
  obtain e where "add_models int_str (models_of_day http cur)
                    [(''Date'', JStr (strftime cur))] (aggregated st) = Inl e"
    using add_models_not_convertible [OF assms] by blast
  then show ?thesis
    using m
    by (simp add: day_step_def Let_def fetch_daily_snd [of http sent] items)
qed

lemma month_loop_Inr:
  "month_loop int_str http cur end_date st sent = (sent', Inr st') \<Longrightarrow>
   aggregated st' =
     foldl (\<lambda>a d. agg_items int_str (models_of_day http d) a) (aggregated st) [cur..end_date]
   \<and> daily_rows st' = daily_rows st @ map (row_of_day http) [cur..end_date]
   \<and> sent' = sent @ map daily_url [cur..end_date]
   \<and> list_all (\<lambda>d. convertible int_str (models_of_day http d)) [cur..end_date]"
proof (induction int_str http cur end_date st sent rule: month_loop.induct)
  case (1 int_str http cur end_date st sent)
  show ?case
  proof (cases "cur \<le> end_date")
    case False
    with "1.prems" show ?thesis
      by (simp add: month_loop.simps)
  next
    case True
    obtain s1 r1 where step: "day_step int_str http cur st sent = (s1, r1)"
      by (cases "day_step int_str http cur st sent")
    from "1.prems" True step obtain st1 where r1: "r1 = Inr st1"
      by (cases r1) (auto simp: month_loop.simps)
    from "1.prems" True step r1 obtain cur' where cur': "add_day cur = Inr cur'"
      by (cases "add_day cur") (auto simp: month_loop.simps)
    then have cur'_eq: "cur' = cur + 1"
      by (auto simp: add_day_def split: if_splits)
    have rec: "month_loop int_str http cur' end_date st1 s1 = (sent', Inr st')"
      using "1.prems" True step r1 cur' by (simp add: month_loop.simps)
    have conv: "convertible int_str (models_of_day http cur)"
      using day_step_not_convertible [of int_str http cur st sent] step r1
      by (cases "convertible int_str (models_of_day http cur)") auto
    have s1: "s1 = sent @ [daily_url cur]"
      using day_step_fst [of int_str http cur st sent] step by simp
    have st1: "st1 = \<lparr>aggregated = agg_items int_str (models_of_day http cur) (aggregated st),
                daily_rows = daily_rows st @ [row_of_day http cur]\<rparr>"
      using day_step_convertible [OF conv, of st sent] step r1 by simp
    note IH = "1.IH" [OF True step [symmetric] r1 cur' rec]
    have upto: "[cur..end_date] = cur # [cur + 1..end_date]"
      using True by (simp add: upto_rec1)
    show ?thesis
      using IH conv by (simp add: upto cur'_eq s1 st1)
  qed
qed

lemma month_loop_sent:
  "month_loop int_str http cur end_date st sent = (sent', r) \<Longrightarrow>
   \<exists>n. sent' = sent @ map daily_url (take n [cur..end_date])"
proof (induction int_str http cur end_date st sent rule: month_loop.induct)
  case (1 int_str http cur end_date st sent)
  show ?case
  proof (cases "cur \<le> end_date")
    case False
    with "1.prems" show ?thesis
      by (simp add: month_loop.simps)
  next
    case True
    then have upto: "[cur..end_date] = cur # [cur + 1..end_date]"
      by (simp add: upto_rec1)
    obtain s1 r1 where step: "day_step int_str http cur st sent = (s1, r1)"
      by (cases "day_step int_str http cur st sent")
    have s1: "s1 = sent @ [daily_url cur]"
      using day_step_fst [of int_str http cur st sent] step by simp
    show ?thesis
    proof (cases r1)
      case (Inl e)
      with "1.prems" True step s1 have "sent' = sent @ [daily_url cur]"
        by (simp add: month_loop.simps)
      then show ?thesis
        by (intro exI [of _ 1]) (simp add: upto)
    next
      case (Inr st1)
      show ?thesis
      proof (cases "add_day cur")
        case (Inl e)
        with "1.prems" True step s1 Inr have "sent' = sent @ [daily_url cur]"
          by (simp add: month_loop.simps)
        then show ?thesis
          by (intro exI [of _ 1]) (simp add: upto)
      next
        case (Inr cur')
        then have cur'_eq: "cur' = cur + 1"
          by (auto simp: add_day_def split: if_splits)
        have rec: "month_loop int_str http cur' end_date st1 s1 = (sent', r)"
          using "1.prems" True step \<open>r1 = Inr st1\<close> Inr by (simp add: month_loop.simps)
        from "1.IH" [OF True step [symmetric] \<open>r1 = Inr st1\<close> Inr rec]
        obtain n where "sent' = s1 @ map daily_url (take n [cur'..end_date])"
          by blast
        then have "sent' = sent @ map daily_url (take (Suc n) [cur..end_date])"
          by (simp add: s1 upto cur'_eq)
        then show ?thesis by blast
      qed
    qed
  qed
qed

lemma month_loop_returns:
  "list_all (\<lambda>d. convertible int_str (models_of_day http d)) [cur..end_date] \<Longrightarrow>
   0 \<le> cur \<Longrightarrow> end_date < MAXORDINAL \<Longrightarrow>
   \<exists>sent' st'. month_loop int_str http cur end_date st sent = (sent', Inr st')"
proof (induction int_str http cur end_date st sent rule: month_loop.induct)
  case (1 int_str http cur end_date st sent)
  show ?case
  proof (cases "cur \<le> end_date")
    case False
    then show ?thesis
      by (simp add: month_loop.simps)
  next
    case True
    then have upto: "[cur..end_date] = cur # [cur + 1..end_date]"
      by (simp add: upto_rec1)
    have conv: "convertible int_str (models_of_day http cur)"
      using "1.prems"(1) by (simp add: upto)
    obtain s1 r1 where step: "day_step int_str http cur st sent = (s1, r1)"
      by (cases "day_step int_str http cur st sent")
    obtain st1 where r1: "r1 = Inr st1"
      using day_step_convertible [OF conv, of st sent] step by simp
    have cur': "add_day cur = Inr (cur + 1)"
      using True "1.prems"(2,3) by (simp add: add_day_def)
    have "\<exists>sent' st'. month_loop int_str http (cur + 1) end_date st1 s1 = (sent', Inr st')"
      using "1.IH" [OF True step [symmetric] r1 cur'] "1.prems" by (simp add: upto)
    then show ?thesis
      using True step r1 cur' by (simp add: month_loop.simps)
  qed
qed

lemma dict_get_update:
  "dict_get (AList.update k v al) m d = (if m = k then v else dict_get al m d)"
  by (simp add: dict_get_def update_conv')

lemma count_of_Nil: "count_of int_str [] m = 0"
  by (simp add: count_of_def)

lemma count_of_Cons:
  "count_of int_str ((k, c) # items) m =
     (if m = k then (case py_int int_str c of Inr n \<Rightarrow> n | Inl e \<Rightarrow> 0)
      else count_of int_str items m)"
  by (simp add: count_of_def)

lemma count_of_notin: "m \<notin> fst ` set items \<Longrightarrow> count_of int_str items m = 0"
  using map_of_eq_None_iff [of items m] by (simp add: count_of_def)

lemma agg_items_total:
  "distinct (map fst items) \<Longrightarrow>
   dict_get (agg_items int_str items agg) m 0 = dict_get agg m 0 + count_of int_str items m"
proof (induction items arbitrary: agg)
  case Nil
  then show ?case by (simp add: count_of_Nil)
next
  case (Cons p items)
  obtain k c where p: "p = (k, c)" by (cases p)
  from Cons.prems p have notin: "k \<notin> fst ` set items" and d: "distinct (map fst items)"
    by auto
  show ?case
    using Cons.IH [OF d] count_of_notin [OF notin, of int_str]
    by (simp add: p count_of_Cons dict_get_update)
qed

lemma agg_items_keys:
  "fst ` set (agg_items int_str items agg) = fst ` set agg \<union> fst ` set items"
proof (induction items arbitrary: agg)
  case Nil
  then show ?case by simp
next
  case (Cons p items)
  obtain k c where p: "p = (k, c)" by (cases p)
  show ?case
    unfolding p agg_items.simps Cons.IH
    by (simp add: dom_update)
qed

lemma agg_items_distinct:
  "distinct (map fst agg) \<Longrightarrow> distinct (map fst (agg_items int_str items agg))"
  by (induction items arbitrary: agg) (auto simp: distinct_update)

lemma agg_items_Nil_iff: "agg_items int_str items agg = agg" if "items = []"
  using that by simp

lemma foldl_agg_total:
  "dict_get (foldl (\<lambda>a d. agg_items int_str (models_of_day http d) a) agg days) m 0 =
     dict_get agg m 0 + (\<Sum>d\<leftarrow>days. count_of int_str (models_of_day http d) m)"
  by (induction days arbitrary: agg)
     (simp_all add: agg_items_total distinct_models_of_day)

lemma foldl_agg_keys:
  "fst ` set (foldl (\<lambda>a d. agg_items int_str (models_of_day http d) a) agg days) =
     fst ` set agg \<union> (\<Union>d\<in>set days. fst ` set (models_of_day http d))"
  by (induction days arbitrary: agg) (auto simp: agg_items_keys)

lemma foldl_agg_distinct:
  "distinct (map fst agg) \<Longrightarrow>
   distinct (map fst (foldl (\<lambda>a d. agg_items int_str (models_of_day http d) a) agg days))"
  by (induction days arbitrary: agg) (simp_all add: agg_items_distinct)

lemma foldl_agg_filter:
  "foldl (\<lambda>a ms. agg_items int_str ms a) agg (filter (\<lambda>ms. ms \<noteq> []) mss) =
   foldl (\<lambda>a ms. agg_items int_str ms a) agg mss"
  by (induction mss arbitrary: agg) auto

lemma foldl_agg_map:
  "foldl (\<lambda>a d. agg_items int_str (models_of_day http d) a) agg days =
   foldl (\<lambda>a ms. agg_items int_str ms a) agg (map (models_of_day http) days)"
  by (simp add: foldl_map)

lemma py_items_distinct_id: "distinct (map fst al) \<Longrightarrow> py_items al = al"
  by (simp add: py_items_def distinct_clearjunk_id)

lemma sort_values_desc_mset: "mset (sort_values_desc f xs) = mset xs"
  by (simp add: sort_values_desc_def)

lemma sort_values_desc_set: "set (sort_values_desc f xs) = set xs"
  by (simp add: sort_values_desc_def)

lemma sorted_uminus_rev: "sorted (map uminus ys) \<Longrightarrow> sorted (rev ys)" for ys :: "int list"
  by (induction ys) (auto simp: sorted_append)

lemma sort_values_desc_descending: "descending (map f (sort_values_desc f xs))"
proof -
  have "sorted (map (\<lambda>x. - f x) (sort_key (\<lambda>x. - f x) xs))"
    by (rule sorted_sort_key)
  then have "sorted (map uminus (map f (sort_key (\<lambda>x. - f x) xs)))"
    by (simp add: comp_def)
  then show ?thesis
    unfolding descending_def sort_values_desc_def by (rule sorted_uminus_rev)
qed

lemma sort_values_desc_distinct:
  "distinct (map fst xs) \<Longrightarrow> distinct (map fst (sort_values_desc f xs))"
proof -
  assume "distinct (map fst xs)"
  moreover have "mset (map fst (sort_values_desc f xs)) = mset (map fst xs)"
    by (simp add: sort_values_desc_mset)
  ultimately show ?thesis
    by (metis mset_eq_imp_distinct_iff)
qed

lemma summary_of_set: "distinct (map fst agg) \<Longrightarrow> set (summary_of agg) = set agg"
  by (cases agg) (simp_all add: summary_of_def py_items_distinct_id sort_values_desc_set)

lemma summary_of_distinct:
  "distinct (map fst agg) \<Longrightarrow> distinct (map fst (summary_of agg))"
  by (simp add: summary_of_def py_items_distinct_id sort_values_desc_distinct)

lemma summary_of_descending: "descending (map snd (summary_of agg))"
  using sort_values_desc_descending [of snd "py_items agg"]
  by (simp add: summary_of_def descending_def)

lemma summary_of_map_of:
  "distinct (map fst agg) \<Longrightarrow> map_of (summary_of agg) = map_of agg"
  by (rule map_of_inject_set [THEN iffD2])
     (simp_all add: summary_of_distinct summary_of_set)

lemma summary_of_dict_get:
  "distinct (map fst agg) \<Longrightarrow> dict_get (summary_of agg) m d = dict_get agg m d"
  by (simp add: dict_get_def summary_of_map_of)

lemma ymd2ord_pos:
  assumes "1 \<le> y" "1 \<le> d"
  shows "1 \<le> ymd2ord y m d"
proof -
  have "0 \<le> days_before_year y"
  proof -
    have "(y - 1) div 100 \<le> (y - 1) div 4"
      using assms(1) by (intro zdiv_mono2) simp_all
    moreover have "0 \<le> (y - 1) div 400"
      using assms(1) by (simp add: pos_imp_zdiv_nonneg_iff)
    moreover have "0 \<le> (y - 1) * 365"
      using assms(1) by simp
    ultimately show ?thesis
      unfolding days_before_year_def by linarith
  qed
  moreover have "0 \<le> days_before_month y m"
    unfolding days_before_month_def
    by (rule sum_list_nonneg) (auto simp: days_in_month_def mdays_def)
  ultimately show ?thesis
    using assms(2) by (simp add: ymd2ord_def)
qed

lemma days_in_month_ge: "1 \<le> days_in_month y m"
  by (simp add: days_in_month_def mdays_def)

lemma aggregator_invalid:
  "\<not> (1 \<le> year \<and> year \<le> 9999 \<and> 1 \<le> month \<and> month \<le> 12) \<Longrightarrow>
   fetch_month_daily_aggregated int_str http TODAY sent year month = (sent, Inl ValueError)"
  by (auto simp: fetch_month_daily_aggregated_def monthrange_def date_new_def)

lemma aggregator_valid:
  assumes "1 \<le> year" "year \<le> 9999" "1 \<le> month" "month \<le> 12"
  shows "fetch_month_daily_aggregated int_str http TODAY sent year month =
     (if ymd2ord year month 1 > TODAY then (sent, Inr ([], []))
      else
        (case month_loop int_str http (ymd2ord year month 1)
                (min (ymd2ord year month (days_in_month year month)) TODAY)
                \<lparr>aggregated = [], daily_rows = []\<rparr> sent of
           (sent', Inl e) \<Rightarrow> (sent', Inl e)
         | (sent', Inr st) \<Rightarrow>
             (sent', Inr (fillna zero (DataFrame_rows (daily_rows st)),
                         summary_of (aggregated st)))))"
  using assms days_in_month_ge [of year month]
  by (simp add: fetch_month_daily_aggregated_def monthrange_def date_new_def)

lemma month_days_future:
  "ymd2ord year month 1 > TODAY \<Longrightarrow> month_days TODAY year month = []"
  by (simp add: month_days_def)

text \<open>What a run that returns has computed.\<close>

lemma aggregator_Inr:
  assumes run: "fetch_month_daily_aggregated int_str http TODAY sent year month =
                  (sent', Inr (daily_df, summary_df))"
  shows "summary_df =
           summary_of (foldl (\<lambda>a d. agg_items int_str (models_of_day http d) a) []
                         (month_days TODAY year month))
    \<and> daily_df =
           (if ymd2ord year month 1 > TODAY then []
            else fillna zero
                   (DataFrame_rows (map (row_of_day http) (month_days TODAY year month))))
    \<and> sent' = sent @ map daily_url (month_days TODAY year month)
    \<and> list_all (\<lambda>d. convertible int_str (models_of_day http d))
         (month_days TODAY year month)
    \<and> (1 \<le> year \<and> year \<le> 9999 \<and> 1 \<le> month \<and> month \<le> 12)"
proof -
  have valid: "1 \<le> year \<and> year \<le> 9999 \<and> 1 \<le> month \<and> month \<le> 12"
    using run aggregator_invalid [of year month int_str http TODAY sent] by auto
  then have unfold: "fetch_month_daily_aggregated int_str http TODAY sent year month =
     (if ymd2ord year month 1 > TODAY then (sent, Inr ([], []))
      else
        (case month_loop int_str http (ymd2ord year month 1)
                (min (ymd2ord year month (days_in_month year month)) TODAY)
                \<lparr>aggregated = [], daily_rows = []\<rparr> sent of
           (sent', Inl e) \<Rightarrow> (sent', Inl e)
         | (sent', Inr st) \<Rightarrow>
             (sent', Inr (fillna zero (DataFrame_rows (daily_rows st)),
                         summary_of (aggregated st)))))"
    by (simp add: aggregator_valid)
  show ?thesis
  proof (cases "ymd2ord year month 1 > TODAY")
    case True
    then show ?thesis
      using run valid unfold by (simp add: month_days_future summary_of_def)
  next
    case False
    obtain s r where loop: "month_loop int_str http (ymd2ord year month 1)
                (min (ymd2ord year month (days_in_month year month)) TODAY)
                \<lparr>aggregated = [], daily_rows = []\<rparr> sent = (s, r)"
      by (cases "month_loop int_str http (ymd2ord year month 1)
                (min (ymd2ord year month (days_in_month year month)) TODAY)
                \<lparr>aggregated = [], daily_rows = []\<rparr> sent")
    from run unfold False loop obtain st where r: "r = Inr st"
      by (cases r) auto
    from run unfold False loop r
    have res: "s = sent'" "daily_df = fillna zero (DataFrame_rows (daily_rows st))"
      "summary_df = summary_of (aggregated st)"
      by auto
    from month_loop_Inr [OF loop [unfolded r]]
    show ?thesis
      using False res valid by (simp add: month_days_def)
  qed
qed

text \<open>A run returns when every count of every day can be converted.\<close>

lemma aggregator_returns:
  assumes "1 \<le> year" "year \<le> 9999" "1 \<le> month" "month \<le> 12" "TODAY < MAXORDINAL"
    and "list_all (\<lambda>d. convertible int_str (models_of_day http d)) (month_days TODAY year month)"
  shows "\<exists>sent' daily_df summary_df.
           fetch_month_daily_aggregated int_str http TODAY sent year month =
             (sent', Inr (daily_df, summary_df))"
proof (cases "ymd2ord year month 1 > TODAY")
  case True
  then show ?thesis
    using assms by (simp add: aggregator_valid)
next
  case False
  have "0 \<le> ymd2ord year month 1"
    using ymd2ord_pos [of year 1 month] assms(1) by simp
  moreover have "min (ymd2ord year month (days_in_month year month)) TODAY < MAXORDINAL"
    using assms(5) by simp
  ultimately obtain s st where
    "month_loop int_str http (ymd2ord year month 1)
       (min (ymd2ord year month (days_in_month year month)) TODAY)
       \<lparr>aggregated = [], daily_rows = []\<rparr> sent = (s, Inr st)"
    using month_loop_returns [of int_str http "ymd2ord year month 1"
        "min (ymd2ord year month (days_in_month year month)) TODAY"
        "\<lparr>aggregated = [], daily_rows = []\<rparr>" sent] assms(6)
    unfolding month_days_def by blast
  then show ?thesis
    using False assms by (simp add: aggregator_valid)
qed

section \<open>The claims about the Monthly Aggregator\<close>

text \<open>
  C1. A run of the Monthly Aggregator returns whenever every count it meets can be converted
  by \<open>int\<close>; and for every run that returns, the total reported for a model is the sum of
  that model's per-day counts over the days of the month up to today (a day that could not
  be fetched contributes nothing), the models reported are exactly those seen on some day,
  each once, and the summary is in descending order of the count. In particular, a month
  whose only non-empty days yield \<open>{"ModelA": 2}\<close> and \<open>{"ModelA": 1, "ModelB": 5}\<close>
  produces \<open>[("ModelB", 5), ("ModelA", 3)]\<close>.
\<close>

theorem C1_monthly_summary:
  "(1 \<le> year \<and> year \<le> 9999 \<and> 1 \<le> month \<and> month \<le> 12 \<and> TODAY < MAXORDINAL
      \<and> list_all (\<lambda>d. convertible int_str (models_of_day http d)) (month_days TODAY year month)
     \<longrightarrow> (\<exists>sent' daily_df summary_df.
            fetch_month_daily_aggregated int_str http TODAY sent year month =
              (sent', Inr (daily_df, summary_df))))
   \<and> (fetch_month_daily_aggregated int_str http TODAY sent year month =
         (sent', Inr (daily_df, summary_df))
      \<longrightarrow> (\<forall>m. dict_get summary_df m 0 =
                 (\<Sum>d\<leftarrow>month_days TODAY year month. count_of int_str (models_of_day http d) m))
        \<and> fst ` set summary_df =
            (\<Union>d\<in>set (month_days TODAY year month). fst ` set (models_of_day http d))
        \<and> distinct (map fst summary_df)
        \<and> descending (map snd summary_df)
        \<and> (filter (\<lambda>ms. ms \<noteq> []) (map (models_of_day http) (month_days TODAY year month)) =
               [[(''ModelA'', JNum (Fin 2))],
                [(''ModelA'', JNum (Fin 1)), (''ModelB'', JNum (Fin 5))]]
             \<longrightarrow> summary_df = [(''ModelB'', 5), (''ModelA'', 3)]))"
proof (intro conjI impI)
  assume "1 \<le> year \<and> year \<le> 9999 \<and> 1 \<le> month \<and> month \<le> 12 \<and> TODAY < MAXORDINAL
      \<and> list_all (\<lambda>d. convertible int_str (models_of_day http d)) (month_days TODAY year month)"
  then show "\<exists>sent' daily_df summary_df.
            fetch_month_daily_aggregated int_str http TODAY sent year month =
              (sent', Inr (daily_df, summary_df))"
    using aggregator_returns [of year month TODAY int_str http sent] by blast
next
  assume run: "fetch_month_daily_aggregated int_str http TODAY sent year month =
         (sent', Inr (daily_df, summary_df))"
  let ?days = "month_days TODAY year month"
  let ?agg = "foldl (\<lambda>a d. agg_items int_str (models_of_day http d) a) [] ?days"
  have summary: "summary_df = summary_of ?agg"
    using aggregator_Inr [OF run] by blast
  have dist: "distinct (map fst ?agg)"
    by (rule foldl_agg_distinct) simp
  show "\<forall>m. dict_get summary_df m 0 =
                 (\<Sum>d\<leftarrow>?days. count_of int_str (models_of_day http d) m)"
  proof
    fix m
    have "dict_get [] m (0::int) = 0"
      by (simp add: dict_get_def)
    then show "dict_get summary_df m 0 =
                 (\<Sum>d\<leftarrow>?days. count_of int_str (models_of_day http d) m)"
      by (simp add: summary summary_of_dict_get [OF dist] foldl_agg_total)
  qed
  show "fst ` set summary_df = (\<Union>d\<in>set ?days. fst ` set (models_of_day http d))"
    by (simp add: summary summary_of_set [OF dist] foldl_agg_keys)
  show "distinct (map fst summary_df)"
    by (simp add: summary summary_of_distinct [OF dist])
  show "descending (map snd summary_df)"
    by (simp add: summary summary_of_descending)
  assume ex: "filter (\<lambda>ms. ms \<noteq> []) (map (models_of_day http) ?days) =
               [[(''ModelA'', JNum (Fin 2))],
                [(''ModelA'', JNum (Fin 1)), (''ModelB'', JNum (Fin 5))]]"
  have "?agg = foldl (\<lambda>a ms. agg_items int_str ms a) []
                 (filter (\<lambda>ms. ms \<noteq> []) (map (models_of_day http) ?days))"
    by (simp only: foldl_agg_map foldl_agg_filter)
  also have "\<dots> = [(''ModelA'', 3), (''ModelB'', 5)]"
    by (simp add: ex dict_get_def py_trunc_def)
  finally show "summary_df = [(''ModelB'', 5), (''ModelA'', 3)]"
    by (simp add: summary summary_of_def py_items_def sort_values_desc_def)
qed

text \<open>The run of the example, evaluated.\<close>

lemma example_run:
  "fetch_month_daily_aggregated (\<lambda>s. None) example_http 739312 [] 2025 3 =
     ([BASE_DAILY @ ''2025-03-01'', BASE_DAILY @ ''2025-03-02''],
      Inr ([(''Date'', [JStr ''2025-03-01'', JStr ''2025-03-02'']),
            (''ModelA'', [JNum (Fin 2), JNum (Fin 1)]),
            (''ModelB'', [JNum (Fin 0), JNum (Fin 5)])],
           [(''ModelB'', 5), (''ModelA'', 3)]))"
  by code_simp

lemma example_days: "month_days 739312 2025 3 = [739311, 739312]"
  by code_simp

lemma example_day1: "models_of_day example_http 739311 = [(''ModelA'', JNum (Fin 2))]"
  by code_simp

lemma example_day2:
  "models_of_day example_http 739312 = [(''ModelA'', JNum (Fin 1)), (''ModelB'', JNum (Fin 5))]"
  by code_simp

theorem C1_monthly_summary_witness:
  "fetch_month_daily_aggregated (\<lambda>s. None) example_http 739312 [] 2025 3 =
     ([BASE_DAILY @ ''2025-03-01'', BASE_DAILY @ ''2025-03-02''],
      Inr ([(''Date'', [JStr ''2025-03-01'', JStr ''2025-03-02'']),
            (''ModelA'', [JNum (Fin 2), JNum (Fin 1)]),
            (''ModelB'', [JNum (Fin 0), JNum (Fin 5)])],
           [(''ModelB'', 5), (''ModelA'', 3)]))
   \<and> list_all (\<lambda>d. convertible (\<lambda>s. None) (models_of_day example_http d))
        (month_days 739312 2025 3)
   \<and> filter (\<lambda>ms. ms \<noteq> []) (map (models_of_day example_http) (month_days 739312 2025 3)) =
        [[(''ModelA'', JNum (Fin 2))],
         [(''ModelA'', JNum (Fin 1)), (''ModelB'', JNum (Fin 5))]]
   \<and> dict_get [(''ModelB'', 5), (''ModelA'', 3)] ''ModelA'' 0 =
        (\<Sum>d\<leftarrow>month_days 739312 2025 3.
            count_of (\<lambda>s. None) (models_of_day example_http d) ''ModelA'')
   \<and> descending (map snd [(''ModelB'', 5 :: int), (''ModelA'', 3)])"
proof -
  note run = example_run
  note days = example_days and day1 = example_day1 and day2 = example_day2
  have conv: "list_all (\<lambda>d. convertible (\<lambda>s. None) (models_of_day example_http d))
        (month_days 739312 2025 3)"
    by (simp add: days day1 day2 convertible_def)
  have ex: "filter (\<lambda>ms. ms \<noteq> []) (map (models_of_day example_http) (month_days 739312 2025 3)) =
        [[(''ModelA'', JNum (Fin 2))],
         [(''ModelA'', JNum (Fin 1)), (''ModelB'', JNum (Fin 5))]]"
    by (simp add: days day1 day2)
  note inst = C1_monthly_summary [of 2025 3 739312 "\<lambda>s. None" example_http "[]"
      "[BASE_DAILY @ ''2025-03-01'', BASE_DAILY @ ''2025-03-02'']"
      "[(''Date'', [JStr ''2025-03-01'', JStr ''2025-03-02'']),
        (''ModelA'', [JNum (Fin 2), JNum (Fin 1)]),
        (''ModelB'', [JNum (Fin 0), JNum (Fin 5)])]"
      "[(''ModelB'', 5), (''ModelA'', 3)]"]
  note props = inst [THEN conjunct2, THEN mp, OF run]
  have "dict_get [(''ModelB'', 5), (''ModelA'', 3)] ''ModelA'' 0 =
        (\<Sum>d\<leftarrow>month_days 739312 2025 3.
            count_of (\<lambda>s. None) (models_of_day example_http d) ''ModelA'')"
    and "descending (map snd [(''ModelB'', 5 :: int), (''ModelA'', 3)])"
    using props [THEN conjunct1, THEN spec, of "''ModelA''"]
      props [THEN conjunct2, THEN conjunct2, THEN conjunct2, THEN conjunct1]
    by this+
  with run conv ex show ?thesis
    by (intro conjI)
qed

lemma month_days_bounds:
  "d \<in> set (month_days TODAY year month) \<Longrightarrow>
   ymd2ord year month 1 \<le> d \<and> d \<le> TODAY
   \<and> d \<le> ymd2ord year month (days_in_month year month)"
  by (auto simp: month_days_def)

lemma aggregator_sent:
  assumes "fetch_month_daily_aggregated int_str http TODAY sent year month = (sent', r)"
  shows "\<exists>n. sent' = sent @ map daily_url (take n (month_days TODAY year month))"
proof (cases "1 \<le> year \<and> year \<le> 9999 \<and> 1 \<le> month \<and> month \<le> 12")
  case False
  then have "sent' = sent"
    using assms aggregator_invalid [OF False, of int_str http TODAY sent] by simp
  then show ?thesis
    by (intro exI [of _ 0]) simp
next
  case True
  note unfold = aggregator_valid [of year month int_str http TODAY sent]
  show ?thesis
  proof (cases "ymd2ord year month 1 > TODAY")
    case future: True
    then have "sent' = sent"
      using assms True unfold by simp
    then show ?thesis
      by (intro exI [of _ 0]) simp
  next
    case False
    obtain s q where loop: "month_loop int_str http (ymd2ord year month 1)
                (min (ymd2ord year month (days_in_month year month)) TODAY)
                \<lparr>aggregated = [], daily_rows = []\<rparr> sent = (s, q)"
      by (cases "month_loop int_str http (ymd2ord year month 1)
                (min (ymd2ord year month (days_in_month year month)) TODAY)
                \<lparr>aggregated = [], daily_rows = []\<rparr> sent")
    have "s = sent'"
      using assms True unfold False loop by (cases q) auto
    with month_loop_sent [OF loop] show ?thesis
      by (simp add: month_days_def)
  qed
qed

text \<open>
  C6. For every valid year and month whose first day is after today the aggregator
  returns the two empty tables at once and sends no request. In every run, whatever its
  outcome, the requests sent are those for an initial stretch of the days from the first
  of the month to the earlier of its last day and today, in order: no day after today is
  ever fetched.
\<close>

theorem C6_future_month_and_clamp:
  "(1 \<le> year \<and> year \<le> 9999 \<and> 1 \<le> month \<and> month \<le> 12 \<and> TODAY < ymd2ord year month 1
      \<longrightarrow> fetch_month_daily_aggregated int_str http TODAY sent year month
            = (sent, Inr ([], [])))
   \<and> (fetch_month_daily_aggregated int_str http TODAY sent year month = (sent', r)
      \<longrightarrow> (\<exists>n. sent' = sent @ map daily_url (take n (month_days TODAY year month))))
   \<and> (\<forall>d\<in>set (month_days TODAY year month).
         ymd2ord year month 1 \<le> d \<and> d \<le> TODAY
         \<and> d \<le> ymd2ord year month (days_in_month year month))"
  using aggregator_sent [of int_str http TODAY sent year month sent' r]
    month_days_bounds [of _ TODAY year month]
  by (simp add: aggregator_valid)

theorem C6_future_month_witness:
  "(1 \<le> (2025::int) \<and> (2025::int) \<le> 9999 \<and> 1 \<le> (4::int) \<and> (4::int) \<le> 12
      \<and> 739312 < ymd2ord 2025 4 1)
   \<and> fetch_month_daily_aggregated (\<lambda>s. None) example_http 739312 [] 2025 4 = ([], Inr ([], []))
   \<and> (\<exists>n. [] = [] @ map daily_url (take n (month_days 739312 2025 4)))
   \<and> 739312 \<in> set (month_days 739312 2025 3)
   \<and> ymd2ord 2025 3 1 \<le> 739312 \<and> (739312::int) \<le> 739312
   \<and> 739312 \<le> ymd2ord 2025 3 (days_in_month 2025 3)"
proof -
  have hyp: "1 \<le> (2025::int) \<and> (2025::int) \<le> 9999 \<and> 1 \<le> (4::int) \<and> (4::int) \<le> 12
      \<and> 739312 < ymd2ord 2025 4 1"
    by code_simp
  have mem: "739312 \<in> set (month_days 739312 2025 3)"
    by code_simp
  note future = C6_future_month_and_clamp
      [of 2025 4 739312 "\<lambda>s. None" example_http "[]" "[]" "Inr ([], [])"]
  note clamp = C6_future_month_and_clamp
      [of 2025 3 739312 "\<lambda>s. None" example_http "[]" "[]" "Inr ([], [])"]
  have run: "fetch_month_daily_aggregated (\<lambda>s. None) example_http 739312 [] 2025 4
               = ([], Inr ([], []))"
    using future [THEN conjunct1, THEN mp, OF hyp] .
  have sent: "\<exists>n. [] = [] @ map daily_url (take n (month_days 739312 2025 4))"
    using future [THEN conjunct2, THEN conjunct1, THEN mp, OF run] .
  have bounds: "ymd2ord 2025 3 1 \<le> 739312 \<and> (739312::int) \<le> 739312
      \<and> 739312 \<le> ymd2ord 2025 3 (days_in_month 2025 3)"
    using clamp [THEN conjunct2, THEN conjunct2, THEN bspec, OF mem] .
  from hyp run sent mem bounds show ?thesis
    by blast
qed

lemma row_items_map_of:
  "distinct (map fst items) \<Longrightarrow>
   map_of (row_items items row) m =
     (case map_of items m of Some c \<Rightarrow> Some c | None \<Rightarrow> map_of row m)"
proof (induction items arbitrary: row)
  case Nil
  then show ?case by simp
next
  case (Cons p items)
  obtain k c where p: "p = (k, c)" by (cases p)
  from Cons.prems p have notin: "map_of items k = None" and d: "distinct (map fst items)"
    by (auto simp: map_of_eq_None_iff)
  show ?case
    using Cons.IH [OF d, of "AList.update k c row"] notin
    by (auto simp: p update_conv' split: option.splits)
qed

lemma row_items_keys:
  "fst ` set (row_items items row) = fst ` set row \<union> fst ` set items"
proof (induction items arbitrary: row)
  case Nil
  then show ?case by simp
next
  case (Cons p items)
  obtain k c where p: "p = (k, c)" by (cases p)
  show ?case
    unfolding p row_items.simps Cons.IH
    by (simp add: dom_update)
qed

lemma row_of_day_keys:
  "fst ` set (row_of_day http d) = insert ''Date'' (fst ` set (models_of_day http d))"
  by (simp add: row_of_day_def row_items_keys)

lemma row_of_day_map_of:
  "m \<noteq> ''Date'' \<Longrightarrow> map_of (row_of_day http d) m = map_of (models_of_day http d) m"
  by (simp add: row_of_day_def row_items_map_of distinct_models_of_day split: option.splits)

lemma columns_of_rows_set: "set (columns_of_rows rows) = (\<Union>r\<in>set rows. fst ` set r)"
  by (auto simp: columns_of_rows_def)

lemma columns_of_rows_distinct: "distinct (columns_of_rows rows)"
  by (simp add: columns_of_rows_def)

lemma convertible_not_na:
  "convertible int_str items \<Longrightarrow> map_of items m = Some c \<Longrightarrow> \<not> isna c"
proof -
  assume conv: "convertible int_str items" and "map_of items m = Some c"
  then have "(m, c) \<in> set items"
    by (simp add: map_of_SomeD)
  with conv have "\<not> isl (py_int int_str c)"
    by (auto simp: convertible_def list_all_iff)
  then show "\<not> isna c"
    by (cases c rule: isna.cases) auto
qed

lemma month_days_nonempty:
  "ymd2ord year month 1 \<le> TODAY \<Longrightarrow> month_days TODAY year month \<noteq> []"
proof -
  assume le: "ymd2ord year month 1 \<le> TODAY"
  have "ymd2ord year month 1 \<le> ymd2ord year month (days_in_month year month)"
    using days_in_month_ge [of year month] by (simp add: ymd2ord_def)
  with le have "ymd2ord year month 1 \<in> set (month_days TODAY year month)"
    by (simp add: month_days_def)
  then show ?thesis by auto
qed

text \<open>
  C4. The claim is that no malformed input makes the Monthly Aggregator raise. The code
  converts every count with \<open>int(c)\<close> outside any \<open>try\<close>: a daily document whose count is
  \<open>null\<close> makes the aggregator raise \<open>TypeError\<close>, and one whose count is the text
  \<open>"n/a"\<close> makes it raise \<open>ValueError\<close>, after the request for that day was sent.
\<close>

theorem C4_malformed_count_raises:
  "fetch_month_daily_aggregated (\<lambda>s. None) null_count_http 739311 [] 2025 3 =
     ([BASE_DAILY @ ''2025-03-01''], Inl TypeError)
   \<and> fetch_month_daily_aggregated (\<lambda>s. None) text_count_http 739311 [] 2025 3 =
     ([BASE_DAILY @ ''2025-03-01''], Inl ValueError)"
  by code_simp

lemma bit_length_le: "n < 2 ^ k \<Longrightarrow> bit_length n \<le> k"
proof (induction n arbitrary: k rule: bit_length.induct)
  case (1 n)
  show ?case
  proof (cases "n \<le> 0")
    case True
    then show ?thesis by (simp add: bit_length.simps)
  next
    case False
    then obtain j where k: "k = Suc j"
      using "1.prems" by (cases k) auto
    have "n div 2 < 2 ^ j"
      using "1.prems" k by auto
    then have "bit_length (n div 2) \<le> j"
      using "1.IH" [OF False] by simp
    then show ?thesis
      using False k by (simp add: bit_length.simps [of n])
  qed
qed

lemma round_half_even_0: "round_half_even n 0 = n"
  by (simp add: round_half_even_def)

lemma float64_of_int_exact:
  assumes "\<bar>n\<bar> < 2 ^ 53"
  shows "float64_of_int n = Fin (of_int n)"
proof -
  have s: "bit_length \<bar>n\<bar> - 53 = 0"
    using bit_length_le [OF assms] by simp
  have "\<bar>n\<bar> < 2 ^ 1024"
  proof -
    have "(2::int) ^ 53 \<le> 2 ^ 1024"
      by (rule power_increasing) simp_all
    with assms show ?thesis by linarith
  qed
  then have "bit_length \<bar>n\<bar> \<le> 1024"
    by (rule bit_length_le)
  then show ?thesis
    by (auto simp: float64_of_int_def round_half_even_0 Let_def s)
qed

lemma float64_small:
  "is_integral q \<Longrightarrow> \<bar>q\<bar> < 2 ^ 53 \<Longrightarrow> float64 q = Fin q"
proof -
  assume int: "is_integral q" and small: "\<bar>q\<bar> < 2 ^ 53"
  from int have "of_int \<lfloor>q\<rfloor> = q"
    unfolding is_integral_def .
  then have q: "q = of_int \<lfloor>q\<rfloor>"
    by (rule sym)
  have "\<bar>of_int \<lfloor>q\<rfloor> :: rat\<bar> < of_int (2 ^ 53)"
    using small q by simp
  then have "\<bar>\<lfloor>q\<rfloor>\<bar> < 2 ^ 53"
    by (metis of_int_abs of_int_less_iff)
  then show ?thesis
    using q int by (simp add: float64_def float64_of_int_exact)
qed

lemma infer_dtype_length: "length (infer_dtype cells) = length cells"
  by (simp add: infer_dtype_def)

lemma to_float64_cell_NaN: "to_float64_cell (JNum NaN) = JNum NaN"
  by simp

lemma infer_dtype_nth_NaN:
  "i < length cells \<Longrightarrow> cells ! i = JNum NaN \<Longrightarrow> infer_dtype cells ! i = JNum NaN"
  by (simp add: infer_dtype_def)

lemma fillna_DataFrame_columns:
  "map fst (fillna v (DataFrame_rows rows)) = columns_of_rows rows"
  by (simp add: fillna_def DataFrame_rows_def comp_def)

lemma fillna_DataFrame_cells:
  "(c, cells) \<in> set (fillna v (DataFrame_rows rows)) \<Longrightarrow>
   cells = map (fillna_cell v) (infer_dtype (map (\<lambda>r. dict_get r c (JNum NaN)) rows))"
  by (auto simp: fillna_def DataFrame_rows_def comp_def)

text \<open>
  The daily table of a run that returns, for a month that does not start after today:
  its columns are \<open>Date\<close> and the models seen on some day, each once; every column has
  one cell per day; and a model other than one named \<open>Date\<close> has a zero on every day
  that has no count for it.
\<close>

lemma dense_daily_matrix:
  assumes run: "fetch_month_daily_aggregated int_str http TODAY sent year month =
                  (sent', Inr (daily_df, summary_df))"
    and today: "ymd2ord year month 1 \<le> TODAY"
  shows "distinct (map fst daily_df)"
    and "set (map fst daily_df) =
         insert ''Date'' (\<Union>d\<in>set (month_days TODAY year month). fst ` set (models_of_day http d))"
    and "(c, cells) \<in> set daily_df \<Longrightarrow> length cells = length (month_days TODAY year month)"
    and "(m, cells) \<in> set daily_df \<Longrightarrow> i < length (month_days TODAY year month) \<Longrightarrow>
         m \<noteq> ''Date'' \<Longrightarrow>
         map_of (models_of_day http (month_days TODAY year month ! i)) m = None \<Longrightarrow>
         cells ! i = zero"
proof -
  let ?days = "month_days TODAY year month"
  let ?rows = "map (row_of_day http) ?days"
  have df: "daily_df = fillna zero (DataFrame_rows ?rows)"
    using aggregator_Inr [OF run] today by auto
  have nonempty: "?days \<noteq> []"
    using today by (rule month_days_nonempty)
  have cols: "map fst daily_df = columns_of_rows ?rows"
    by (simp add: df fillna_DataFrame_columns)
  show "distinct (map fst daily_df)"
    by (simp add: cols columns_of_rows_distinct)
  show "set (map fst daily_df) =
         insert ''Date'' (\<Union>d\<in>set ?days. fst ` set (models_of_day http d))"
    using nonempty by (auto simp: cols columns_of_rows_set row_of_day_keys)
  show "length cells = length ?days" if "(c, cells) \<in> set daily_df"
    using that fillna_DataFrame_cells [of c cells zero ?rows]
    by (simp add: df infer_dtype_length)
  show "cells ! i = zero"
    if mem: "(m, cells) \<in> set daily_df" and i: "i < length ?days" and m: "m \<noteq> ''Date''"
      and none: "map_of (models_of_day http (?days ! i)) m = None"
  proof -
    let ?raw = "map (\<lambda>r. dict_get r m (JNum NaN)) ?rows"
    have cells: "cells = map (fillna_cell zero) (infer_dtype ?raw)"
      using mem fillna_DataFrame_cells [of m cells zero ?rows] by (simp add: df)
    have "?raw ! i = JNum NaN"
      using i m none by (simp add: dict_get_def row_of_day_map_of)
    then have "infer_dtype ?raw ! i = JNum NaN"
      using i by (intro infer_dtype_nth_NaN) simp_all
    then show ?thesis
      using i by (simp add: cells infer_dtype_length fillna_cell_def)
  qed
qed

text \<open>
  C8. The claim is that in the dense daily table a model absent on a day has a zero
  there, and that the model columns are the models seen in the month. The loop starts
  each row as \<open>{"Date": date_str}\<close> and then stores every model under its own name in
  the same dict: a model named \<open>Date\<close> takes the place of the date. With
  \<open>{"Date": 5, "B": 1}\<close> on 2025-03-01 and nothing on 2025-03-02, the \<open>Date\<close> column holds
  the count 5 on the first day, where the date is lost, and the text \<open>2025-03-02\<close> on the
  second day, where the model is absent and the claim asks for zero.
\<close>

theorem C8_model_named_Date:
  "fetch_month_daily_aggregated (\<lambda>s. None) date_model_http 739312 [] 2025 3 =
     ([BASE_DAILY @ ''2025-03-01'', BASE_DAILY @ ''2025-03-02''],
      Inr ([(''Date'', [JNum (Fin 5), JStr ''2025-03-02'']),
            (''B'', [JNum (Fin 1), JNum (Fin 0)])],
           [(''Date'', 5), (''B'', 1)]))
   \<and> map_of (models_of_day date_model_http 739312) ''Date'' = None"
  by code_simp

lemma maker_series_dict_length: "length (maker_series_dict ps d m) = length ps"
  by (auto simp: maker_series_dict_def split: json.splits)

lemma maker_series_list_length: "length (maker_series_list ps l m) = length ps"
  by (simp add: maker_series_list_def)

lemma maker_series_length:
  "is_dict data \<or> is_list data \<Longrightarrow> length (maker_series ps data m) = length ps"
  by (cases data)
     (simp_all add: maker_series_def maker_series_dict_length maker_series_list_length)

lemma coerce_column_length: "length (coerce_column num_str cells) = length cells"
  by (simp add: coerce_column_def to_numeric_def infer_dtype_length)

lemma raw_frame_table:
  "is_dict data \<or> is_list data \<Longrightarrow>
   raw_frame ps data = maker_table (infer_dtype ps) (maker_series ps data)"
  by (cases data)
     (simp_all add: raw_frame_def maker_table_def maker_series_def MAKERS_def set_column_def)

lemma drop_unwanted_table: "drop_unwanted (maker_table ps f) = maker_table ps f"
  by (simp add: drop_unwanted_def maker_table_def has_column_def)

lemma coerce_makers_table:
  "coerce_makers num_str (maker_table ps f) = maker_table ps (\<lambda>m. coerce_column num_str (f m))"
  by (simp add: coerce_makers_def maker_table_def MAKERS_def set_column_def)

lemma df_tail_table:
  "df_tail n (maker_table ps f) =
     maker_table (drop (length ps - n) ps) (\<lambda>m. drop (length (f m) - n) (f m))"
  by (simp add: df_tail_def maker_table_def)

lemma normalized_full_Some:
  assumes "dict_get d ''periods'' (JList []) = JList ps"
    and "data = unwrap_data (dict_get d ''data'' (JDict []))"
    and "is_dict data \<or> is_list data"
  shows "normalized_full num_str (JDict d) =
           Some (maker_table (infer_dtype ps)
                   (\<lambda>m. coerce_column num_str (maker_series ps data m)))"
  using assms
  by (simp add: normalized_full_def Let_def raw_frame_table drop_unwanted_table
      coerce_makers_table)

lemma normalized_full_None:
  "\<not> is_list (dict_get d ''periods'' (JList [])) \<Longrightarrow> normalized_full num_str (JDict d) = None"
  by (cases "dict_get d ''periods'' (JList [])") (simp_all add: normalized_full_def Let_def)

lemma normalized_full_table:
  assumes "normalized_full num_str js = Some full"
  shows "\<exists>ps f. full = maker_table ps (\<lambda>m. coerce_column num_str (f m))
           \<and> (\<forall>m. length (f m) = length ps)"
proof -
  from assms obtain d where js: "js = JDict d"
    by (cases js) (simp_all add: normalized_full_def)
  from assms js obtain ps where ps: "dict_get d ''periods'' (JList []) = JList ps"
    by (cases "dict_get d ''periods'' (JList [])") (simp_all add: normalized_full_def Let_def)
  let ?data = "unwrap_data (dict_get d ''data'' (JDict []))"
  from assms js ps have shape: "is_dict ?data \<or> is_list ?data"
    by (auto simp: normalized_full_def Let_def split: if_splits)
  have "full = maker_table (infer_dtype ps)
                 (\<lambda>m. coerce_column num_str (maker_series ps ?data m))"
    using assms normalized_full_Some [OF ps refl shape, of num_str] by (simp add: js)
  moreover have "\<forall>m. length (maker_series ps ?data m) = length (infer_dtype ps)"
    using shape by (simp add: maker_series_length infer_dtype_length)
  ultimately show ?thesis by blast
qed

lemma fetch_maker_metrics_ok:
  "valid_bucket tp \<Longrightarrow> http BASE_MAKER (maker_params tp) = Response 200 (Some js) \<Longrightarrow>
   fetch_maker_metrics num_str http tp =
     (case normalized_full num_str js of None \<Rightarrow> [] | Some full \<Rightarrow> df_tail (window tp) full)"
  by (auto simp: fetch_maker_metrics_def valid_bucket_def maker_params_def)

lemma fetch_maker_metrics_cases:
  "fetch_maker_metrics num_str http tp = []
   \<or> (\<exists>js full. valid_bucket tp \<and> http BASE_MAKER (maker_params tp) = Response 200 (Some js)
         \<and> normalized_full num_str js = Some full
         \<and> fetch_maker_metrics num_str http tp = df_tail (window tp) full)"
  by (auto simp: fetch_maker_metrics_def valid_bucket_def maker_params_def
      split: http_result.splits option.splits)

lemma map_of_maker_table:
  "m \<in> set MAKERS \<Longrightarrow> map_of (maker_table ps f) m = Some (f m)"
  by (auto simp: maker_table_def MAKERS_def)

lemma map_of_maker_table_Period: "map_of (maker_table ps f) ''Period'' = Some ps"
  by (simp add: maker_table_def)

lemma coerce_column_nulls:
  "coerce_column num_str (replicate n JNull) = replicate n zero"
proof (cases n)
  case 0
  then show ?thesis
    by (simp add: coerce_column_def to_numeric_def infer_dtype_def)
next
  case (Suc k)
  then have "float_column (replicate n (JNum NaN))"
    by (simp add: float_column_def list_all_iff)
  then show ?thesis
    by (simp add: coerce_column_def to_numeric_def infer_dtype_def fillna_cell_def)
qed

end
